theory Spec2Isabelle
  imports Complex_Main "HOL-Library.AList" "HOL-Library.Char_ord" "HOL-Library.List_Lexorder"
begin

section \<open>The WeatherLink Live driver (bin/user/wll.py)\<close>

text \<open>
  The driver polls a WeatherLink Live device, turns the JSON document it answers with into
  one flat packet per cycle and keeps, across cycles, the last storm rain count and the
  start of the last storm. This theory embeds \<^verbatim>\<open>WLL.__init__\<close> and
  \<^verbatim>\<open>WLL.genLoopPackets\<close> with Python 3 semantics.

  Numbers: a Python \<^verbatim>\<open>int\<close> is an \<open>int\<close>; a Python \<^verbatim>\<open>float\<close> is the rational it
  denotes, and float arithmetic is exact rational arithmetic (rounding, infinities and NaN
  are outside the model). What \<^verbatim>\<open>float(s)\<close> gives for a string \<open>s\<close> is a parameter
  \<open>sf\<close> of the model (\<open>None\<close> stands for ValueError).
\<close>

subsection \<open>Values of a parsed JSON document\<close>

datatype json =
    JNull
  | JBool bool
  | JInt int
  | JFloat rat
  | JStr string
  | JList "json list"
  | JDict "(string \<times> json) list"

text \<open>
  Python's \<^verbatim>\<open>None\<close> is \<open>JNull\<close>. A dict is the list of its items in insertion order
  (a parsed dict holds each key once), and
  \<open>map_of\<close> looks a key up; a packet is updated with \<open>AList.update\<close>, which replaces the
  value of a key in place and appends a new key at the end, as \<^verbatim>\<open>dict.update\<close> does.
\<close>

datatype error = KeyError | TypeError | ValueError | UnboundLocalError | ConnectionError

type_synonym packet = "(string \<times> json) list"

text \<open>The numeric value of a bool, an int or a float; \<open>None\<close> for any other value.\<close>

fun num_of :: "json \<Rightarrow> rat option" where
  "num_of (JBool b) = Some (if b then 1 else 0)"
| "num_of (JInt i) = Some (of_int i)"
| "num_of (JFloat r) = Some r"
| "num_of _ = None"

text \<open>\<^verbatim>\<open>a == b\<close>: numbers (bools included) by value, containers by their contents.\<close>

fun py_eq :: "json \<Rightarrow> json \<Rightarrow> bool" where
  "py_eq JNull b = (b = JNull)"
| "py_eq (JStr s) b = (case b of JStr t \<Rightarrow> s = t | _ \<Rightarrow> False)"
| "py_eq (JList xs) b = (case b of JList ys \<Rightarrow> list_all2 py_eq xs ys | _ \<Rightarrow> False)"
| "py_eq (JDict d) b = (case b of
       JDict e \<Rightarrow>
         list_all (\<lambda>kv. case map_of e (fst kv) of None \<Rightarrow> False | Some w \<Rightarrow> py_eq (snd kv) w) d
         \<and> list_all (\<lambda>kv. map_of d (fst kv) \<noteq> None) e
     | _ \<Rightarrow> False)"
| "py_eq a b = (case (num_of a, num_of b) of (Some x, Some y) \<Rightarrow> x = y | _ \<Rightarrow> False)"

text \<open>
  \<^verbatim>\<open>a >= b\<close>: numbers by value, strings and lists lexicographically, TypeError for any
  other pair of operands.
\<close>

fun py_ge :: "json \<Rightarrow> json \<Rightarrow> error + bool"
  and py_ge_list :: "json list \<Rightarrow> json list \<Rightarrow> error + bool" where
  "py_ge (JStr s) b = (case b of JStr t \<Rightarrow> Inr (t \<le> s) | _ \<Rightarrow> Inl TypeError)"
| "py_ge (JList xs) b = (case b of JList ys \<Rightarrow> py_ge_list xs ys | _ \<Rightarrow> Inl TypeError)"
| "py_ge a b = (case (num_of a, num_of b) of
       (Some x, Some y) \<Rightarrow> Inr (y \<le> x)
     | _ \<Rightarrow> Inl TypeError)"
| "py_ge_list [] [] = Inr True"
| "py_ge_list [] (y # ys) = Inr False"
| "py_ge_list (x # xs) [] = Inr True"
| "py_ge_list (x # xs) (y # ys) = (if py_eq x y then py_ge_list xs ys else py_ge x y)"

definition py_le :: "json \<Rightarrow> json \<Rightarrow> error + bool" where
  "py_le a b = py_ge b a"

text \<open>\<^verbatim>\<open>float(v)\<close>.\<close>

fun py_float :: "(string \<Rightarrow> rat option) \<Rightarrow> json \<Rightarrow> error + rat" where
  "py_float sf (JBool b) = Inr (if b then 1 else 0)"
| "py_float sf (JInt i) = Inr (of_int i)"
| "py_float sf (JFloat r) = Inr r"
| "py_float sf (JStr s) = (case sf s of None \<Rightarrow> Inl ValueError | Some r \<Rightarrow> Inr r)"
| "py_float sf _ = Inl TypeError"

text \<open>\<^verbatim>\<open>v * m\<close> for a float \<open>m\<close>.\<close>

definition py_mul_float :: "json \<Rightarrow> rat \<Rightarrow> error + json" where
  "py_mul_float v m = (case num_of v of None \<Rightarrow> Inl TypeError | Some x \<Rightarrow> Inr (JFloat (x * m)))"

text \<open>\<^verbatim>\<open>v[key]\<close> for a string key.\<close>

fun py_getitem :: "json \<Rightarrow> string \<Rightarrow> error + json" where
  "py_getitem (JDict d) k = (case map_of d k of None \<Rightarrow> Inl KeyError | Some v \<Rightarrow> Inr v)"
| "py_getitem _ k = Inl TypeError"

text \<open>The values a \<^verbatim>\<open>for\<close> loop over \<open>v\<close> visits: a dict gives its keys, a string its characters.\<close>

fun py_iter :: "json \<Rightarrow> error + json list" where
  "py_iter (JList xs) = Inr xs"
| "py_iter (JDict d) = Inr (map (\<lambda>kv. JStr (fst kv)) d)"
| "py_iter (JStr s) = Inr (map (\<lambda>c. JStr [c]) s)"
| "py_iter _ = Inl TypeError"

subsection \<open>The driver object and the frame of the generator\<close>

text \<open>
  \<open>poll_interval\<close>, \<open>last_rain_storm\<close> and \<open>last_rain_storm_start_at\<close> are attributes of the
  \<^verbatim>\<open>WLL\<close> object. \<open>rain_count_size\<close> is a local variable of \<^verbatim>\<open>genLoopPackets\<close>: it is
  unbound (\<open>None\<close>) until its first assignment and keeps its value from one record and one
  cycle to the next.
\<close>

record wll =
  poll_interval :: rat
  last_rain_storm :: json
  last_rain_storm_start_at :: json
  rain_count_size :: "rat option"

definition WLL_init :: "rat \<Rightarrow> wll" where
  "WLL_init p =
     \<lparr>poll_interval = p, last_rain_storm = JNull, last_rain_storm_start_at = JNull,
      rain_count_size = None\<rparr>"

definition MM_TO_INCH :: rat where
  "MM_TO_INCH = 393701 / 10000000"

text \<open>\<^verbatim>\<open>weewx.US\<close>, the unit system tag of the weewx library.\<close>

definition weewx_US :: json where
  "weewx_US = JInt 1"

subsection \<open>Fields copied from a record into the packet\<close>

text \<open>
  \<^verbatim>\<open>if "temp" in condition: _packet.update({'outTemp': condition["temp"]})\<close>, for the
  pair \<open>(''temp'', ''outTemp'')\<close>.
\<close>

definition copy_field :: "(string \<times> json) list \<Rightarrow> string \<times> string \<Rightarrow> packet \<Rightarrow> packet" where
  "copy_field c fk p =
     (case map_of c (fst fk) of None \<Rightarrow> p | Some v \<Rightarrow> AList.update (snd fk) v p)"

definition copy_fields :: "(string \<times> json) list \<Rightarrow> (string \<times> string) list \<Rightarrow> packet \<Rightarrow> packet" where
  "copy_fields c fks p = fold (copy_field c) fks p"

text \<open>The fields of an ISS record before the rain collector's (lines 154 to 179).\<close>

definition iss_fields :: "(string \<times> string) list" where
  "iss_fields =
     [(''temp'', ''outTemp''),
      (''hum'', ''outHumidity''),
      (''dew_point'', ''dewpoint''),
      (''heat_index'', ''heatindex''),
      (''wind_chill'', ''windchill''),
      (''wind_speed_last'', ''windSpeed''),
      (''wind_dir_last'', ''windDir''),
      (''wind_speed_hi_last_10_min'', ''windGust''),
      (''wind_dir_scalar_avg_last_10_min'', ''windGustDir'')]"

text \<open>The fields of an ISS record after the rain collector's (lines 224 to 231).\<close>

definition iss_fields_tail :: "(string \<times> string) list" where
  "iss_fields_tail =
     [(''solar_rad'', ''radiation''),
      (''uv_index'', ''UV''),
      (''trans_battery_flag'', ''txBatteryStatus'')]"

text \<open>Leaf and soil moisture records (lines 236 to 264); both \<open>moist_soil_2\<close> and
  \<open>moist_soil_3\<close> are stored under \<open>soilMoist3\<close>.\<close>

definition leaf_soil_fields :: "(string \<times> string) list" where
  "leaf_soil_fields =
     [(''temp_1'', ''soilTemp1''),
      (''temp_2'', ''soilTemp2''),
      (''temp_3'', ''soilTemp3''),
      (''temp_4'', ''soilTemp4''),
      (''moist_soil_1'', ''soilMoist1''),
      (''moist_soil_2'', ''soilMoist3''),
      (''moist_soil_3'', ''soilMoist3''),
      (''moist_soil_4'', ''soilMoist4''),
      (''wet_leaf_1'', ''leafWet1''),
      (''wet_leaf_2'', ''leafWet2'')]"

definition bar_fields :: "(string \<times> string) list" where
  "bar_fields =
     [(''bar_sea_level'', ''barometer''),
      (''bar_absolute'', ''pressure'')]"

definition inside_fields :: "(string \<times> string) list" where
  "inside_fields =
     [(''temp_in'', ''inTemp''),
      (''hum_in'', ''inHumidity''),
      (''dew_point_in'', ''inDewpoint'')]"

subsection \<open>The rain collector (lines 181 to 222)\<close>

text \<open>\<^verbatim>\<open>1 <= rain_collector_type <= 4\<close>: the second comparison runs only if the first holds.\<close>

definition rain_size_in_range :: "json \<Rightarrow> error + bool" where
  "rain_size_in_range t =
     (case py_le (JInt 1) t of
        Inl e \<Rightarrow> Inl e
      | Inr b \<Rightarrow> if b then py_le t (JInt 4) else Inr False)"

text \<open>Lines 187 to 197: a value in range that equals none of 1, 2, 3, 4 assigns nothing.\<close>

definition assign_rain_count_size :: "json \<Rightarrow> rat option \<Rightarrow> rat option" where
  "assign_rain_count_size t old =
     (if py_eq t (JInt 1) then Some (1 / 100)
      else if py_eq t (JInt 2) then Some (2 / 10 * MM_TO_INCH)
      else if py_eq t (JInt 3) then Some (1 / 10)
      else if py_eq t (JInt 4) then Some (1 / 1000 * MM_TO_INCH)
      else old)"

text \<open>Lines 199 and 200.\<close>

definition rain_rate :: "(string \<Rightarrow> rat option) \<Rightarrow> rat option \<Rightarrow> (string \<times> json) list \<Rightarrow> packet
    \<Rightarrow> error + packet" where
  "rain_rate sf rcs c p =
     (case map_of c ''rain_rate_last'' of
        None \<Rightarrow> Inr p
      | Some r \<Rightarrow>
          (case py_float sf r of
             Inl e \<Rightarrow> Inl e
           | Inr x \<Rightarrow>
               (case rcs of
                  None \<Rightarrow> Inl UnboundLocalError
                | Some m \<Rightarrow> Inr (AList.update ''rainRate'' (JFloat (x * m)) p))))"

text \<open>Lines 209 to 217: \<open>rain_count\<close>, from the stored state and the record's
  \<open>rain_storm\<close> and \<open>rain_storm_start_at\<close>.\<close>

definition storm_delta :: "(string \<Rightarrow> rat option) \<Rightarrow> wll \<Rightarrow> json \<Rightarrow> json \<Rightarrow> error + json" where
  "storm_delta sf st rain_storm rain_storm_start_at =
     (if last_rain_storm st \<noteq> JNull \<and> last_rain_storm_start_at st \<noteq> JNull then
        if \<not> py_eq rain_storm_start_at (last_rain_storm_start_at st) then Inr rain_storm
        else
          (case py_ge rain_storm (last_rain_storm st) of
             Inl e \<Rightarrow> Inl e
           | Inr b \<Rightarrow>
               if b then
                 (case py_float sf rain_storm of
                    Inl e \<Rightarrow> Inl e
                  | Inr x \<Rightarrow>
                      (case py_float sf (last_rain_storm st) of
                         Inl e \<Rightarrow> Inl e
                       | Inr y \<Rightarrow> Inr (JFloat (x - y))))
               else Inr (JFloat 0))
      else Inr (JFloat 0))"

text \<open>Lines 206 to 220: \<open>rain_count\<close> is computed, then the state is stored, whatever
  \<open>rain_count\<close> is. An exception of lines 213 to 217 leaves the state as it was.\<close>

definition storm_step :: "(string \<Rightarrow> rat option) \<Rightarrow> wll \<Rightarrow> json \<Rightarrow> json \<Rightarrow> wll \<times> (error + json)" where
  "storm_step sf st rain_storm rain_storm_start_at =
     (case storm_delta sf st rain_storm rain_storm_start_at of
        Inl e \<Rightarrow> (st, Inl e)
      | Inr rain_count \<Rightarrow>
          (st\<lparr>last_rain_storm := rain_storm, last_rain_storm_start_at := rain_storm_start_at\<rparr>,
           Inr rain_count))"

text \<open>Lines 202 to 222. The state is stored (lines 219 and 220) before the product of
  line 222 is computed, so an exception of line 222 leaves the new state behind.\<close>

definition rain_storm_block :: "(string \<Rightarrow> rat option) \<Rightarrow> wll \<Rightarrow> (string \<times> json) list \<Rightarrow> packet
    \<Rightarrow> wll \<times> (error + packet)" where
  "rain_storm_block sf st c p =
     (case (map_of c ''rain_storm'', map_of c ''rain_storm_start_at'') of
        (Some rain_storm, Some rain_storm_start_at) \<Rightarrow>
          (case storm_step sf st rain_storm rain_storm_start_at of
             (st', Inl e) \<Rightarrow> (st', Inl e)
           | (st', Inr rain_count) \<Rightarrow>
               (case rain_count_size st' of
                  None \<Rightarrow> (st', Inl UnboundLocalError)
                | Some m \<Rightarrow>
                    (case py_mul_float rain_count m of
                       Inl e \<Rightarrow> (st', Inl e)
                     | Inr v \<Rightarrow> (st', Inr (AList.update ''rain'' v p)))))
      | _ \<Rightarrow> (st, Inr p))"

text \<open>Lines 181 to 222.\<close>

definition rain_block :: "(string \<Rightarrow> rat option) \<Rightarrow> wll \<Rightarrow> (string \<times> json) list \<Rightarrow> packet
    \<Rightarrow> wll \<times> (error + packet)" where
  "rain_block sf st c p =
     (case map_of c ''rain_size'' of
        None \<Rightarrow> (st, Inr p)
      | Some rain_collector_type \<Rightarrow>
          (case rain_size_in_range rain_collector_type of
             Inl e \<Rightarrow> (st, Inl e)
           | Inr b \<Rightarrow>
               if b then
                 (let st1 = st\<lparr>rain_count_size :=
                              assign_rain_count_size rain_collector_type (rain_count_size st)\<rparr>
                  in case rain_rate sf (rain_count_size st1) c p of
                       Inl e \<Rightarrow> (st1, Inl e)
                     | Inr p1 \<Rightarrow> rain_storm_block sf st1 c p1)
               else (st, Inr p)))"

subsection \<open>One record, all records, one document\<close>

text \<open>The body of the \<^verbatim>\<open>for\<close> loop (lines 149 to 285). Only a dict can be indexed by
  \<open>"data_structure_type"\<close>.\<close>

fun process_condition :: "(string \<Rightarrow> rat option) \<Rightarrow> wll \<Rightarrow> packet \<Rightarrow> json
    \<Rightarrow> wll \<times> (error + packet)" where
  "process_condition sf st p (JDict c) =
     (case map_of c ''data_structure_type'' of
        None \<Rightarrow> (st, Inl KeyError)
      | Some data_structure_type \<Rightarrow>
          if py_eq data_structure_type (JInt 1) then
            (case rain_block sf st c (copy_fields c iss_fields p) of
               (st', Inl e) \<Rightarrow> (st', Inl e)
             | (st', Inr p') \<Rightarrow> (st', Inr (copy_fields c iss_fields_tail p')))
          else if py_eq data_structure_type (JInt 2) then (st, Inr (copy_fields c leaf_soil_fields p))
          else if py_eq data_structure_type (JInt 3) then (st, Inr (copy_fields c bar_fields p))
          else if py_eq data_structure_type (JInt 4) then (st, Inr (copy_fields c inside_fields p))
          else (st, Inr p))"
| "process_condition sf st p _ = (st, Inl TypeError)"

text \<open>The \<^verbatim>\<open>for\<close> loop: an exception ends it, and the state reached so far stays.\<close>

fun process_conditions :: "(string \<Rightarrow> rat option) \<Rightarrow> wll \<Rightarrow> packet \<Rightarrow> json list
    \<Rightarrow> wll \<times> (error + packet)" where
  "process_conditions sf st p [] = (st, Inr p)"
| "process_conditions sf st p (c # cs) =
     (case process_condition sf st p c of
        (st', Inl e) \<Rightarrow> (st', Inl e)
      | (st', Inr p') \<Rightarrow> process_conditions sf st' p' cs)"

text \<open>Lines 140 to 285, from the parsed document to the packet that would be yielded.\<close>

definition normalize :: "(string \<Rightarrow> rat option) \<Rightarrow> wll \<Rightarrow> json \<Rightarrow> wll \<times> (error + packet)" where
  "normalize sf st data =
     (case py_getitem data ''data'' of
        Inl e \<Rightarrow> (st, Inl e)
      | Inr d \<Rightarrow>
          (case py_getitem d ''ts'' of
             Inl e \<Rightarrow> (st, Inl e)
           | Inr timestamp \<Rightarrow>
               (case py_getitem d ''conditions'' of
                  Inl e \<Rightarrow> (st, Inl e)
                | Inr conditions \<Rightarrow>
                    (case py_iter conditions of
                       Inl e \<Rightarrow> (st, Inl e)
                     | Inr cs \<Rightarrow>
                         process_conditions sf st
                           [(''dateTime'', timestamp), (''usUnits'', weewx_US)] cs))))"

subsection \<open>The polling loop\<close>

text \<open>
  What one pass of \<^verbatim>\<open>while True\<close> meets: \<^verbatim>\<open>requests.get\<close> raises, or the body of the
  response is not JSON (\<^verbatim>\<open>response.json()\<close> raises a ValueError), or it is a document.
\<close>

datatype response = GetRaises | NotJson | Json json

text \<open>
  What the loop does that its caller can see: the two lines it logs for an exception, the
  packet it yields, the time it asks to sleep, and an exception that leaves the generator.
\<close>

datatype event =
    Logerr string
  | LogerrException error
  | Yield packet
  | Sleep rat
  | Raise error

text \<open>\<^verbatim>\<open>time.sleep(d)\<close> raises a ValueError for a negative \<open>d\<close>.\<close>

definition py_sleep :: "rat \<Rightarrow> error + event" where
  "py_sleep d = (if d < 0 then Inl ValueError else Inr (Sleep d))"

text \<open>The outer handler (lines 291 to 298): its own \<^verbatim>\<open>time.sleep\<close> is not guarded, so an
  exception of it ends the generator. The flag says whether the loop goes on.\<close>

definition parse_handler :: "wll \<Rightarrow> error \<Rightarrow> event list \<times> bool" where
  "parse_handler st e =
     (case py_sleep (poll_interval st) of
        Inl e' \<Rightarrow>
          ([Logerr ''Error parsing the WeatherLink Live json data.'', LogerrException e,
            Raise e'], False)
      | Inr s \<Rightarrow>
          ([Logerr ''Error parsing the WeatherLink Live json data.'', LogerrException e, s],
           True))"

text \<open>One pass of the loop (lines 123 to 298).\<close>

definition cycle :: "(string \<Rightarrow> rat option) \<Rightarrow> wll \<Rightarrow> response \<Rightarrow> wll \<times> event list \<times> bool" where
  "cycle sf st r =
     (case r of
        GetRaises \<Rightarrow>
          (st, [Logerr ''Error connecting to the WeatherLink Live device.'',
                LogerrException ConnectionError, Sleep 2], True)
      | NotJson \<Rightarrow> (st, parse_handler st ValueError)
      | Json data \<Rightarrow>
          (case normalize sf st data of
             (st', Inl e) \<Rightarrow> (st', parse_handler st' e)
           | (st', Inr p) \<Rightarrow>
               (case py_sleep (poll_interval st') of
                  Inl e \<Rightarrow>
                    (st', Yield p # fst (parse_handler st' e), snd (parse_handler st' e))
                | Inr s \<Rightarrow> (st', [Yield p, s], True))))"

text \<open>The loop over the responses the device gives, one per pass.\<close>

fun genLoopPackets :: "(string \<Rightarrow> rat option) \<Rightarrow> wll \<Rightarrow> response list \<Rightarrow> event list" where
  "genLoopPackets sf st [] = []"
| "genLoopPackets sf st (r # rs) =
     (case cycle sf st r of
        (st', evs, go) \<Rightarrow> if go then evs @ genLoopPackets sf st' rs else evs)"

subsection \<open>Vocabulary of the statements\<close>

text \<open>The records the \<^verbatim>\<open>for\<close> loop of a document visits; none if the cycle fails before
  the loop.\<close>

definition conditions_of :: "json \<Rightarrow> json list" where
  "conditions_of data =
     (case py_getitem data ''data'' of
        Inl e \<Rightarrow> []
      | Inr d \<Rightarrow>
          (case py_getitem d ''ts'' of
             Inl e \<Rightarrow> []
           | Inr timestamp \<Rightarrow>
               (case py_getitem d ''conditions'' of
                  Inl e \<Rightarrow> []
                | Inr conditions \<Rightarrow>
                    (case py_iter conditions of Inl e \<Rightarrow> [] | Inr cs \<Rightarrow> cs))))"

definition records_of :: "response \<Rightarrow> json list" where
  "records_of r = (case r of Json data \<Rightarrow> conditions_of data | _ \<Rightarrow> [])"

text \<open>The fields copied for a record of the given \<open>data_structure_type\<close>.\<close>

definition passthrough_fields :: "json \<Rightarrow> (string \<times> string) list" where
  "passthrough_fields t =
     (if py_eq t (JInt 1) then iss_fields @ iss_fields_tail
      else if py_eq t (JInt 2) then leaf_soil_fields
      else if py_eq t (JInt 3) then bar_fields
      else if py_eq t (JInt 4) then inside_fields
      else [])"

text \<open>The \<open>rain_storm\<close> and \<open>rain_storm_start_at\<close> of a record that has both.\<close>

fun storm_pair :: "json \<Rightarrow> (json \<times> json) option" where
  "storm_pair (JDict c) =
     (case (map_of c ''rain_storm'', map_of c ''rain_storm_start_at'') of
        (Some v, Some s) \<Rightarrow> Some (v, s)
      | _ \<Rightarrow> None)"
| "storm_pair _ = None"

text \<open>A record that reaches line 202 with both fields: an ISS record whose \<open>rain_size\<close>
  passes the test of line 185.\<close>

fun precip_capable :: "json \<Rightarrow> bool" where
  "precip_capable (JDict c) =
     (case map_of c ''data_structure_type'' of
        None \<Rightarrow> False
      | Some t \<Rightarrow>
          py_eq t (JInt 1)
          \<and> (case map_of c ''rain_size'' of
                None \<Rightarrow> False
              | Some rs \<Rightarrow> rain_size_in_range rs = Inr True)
          \<and> storm_pair (JDict c) \<noteq> None)"
| "precip_capable _ = False"

definition stored :: "wll \<Rightarrow> json \<times> json" where
  "stored st = (last_rain_storm st, last_rain_storm_start_at st)"

text \<open>Both stored values are \<^verbatim>\<open>None\<close>, or neither is.\<close>

definition precip_inv :: "wll \<Rightarrow> bool" where
  "precip_inv st = ((last_rain_storm st = JNull) = (last_rain_storm_start_at st = JNull))"

definition pair_consistent :: "json \<Rightarrow> bool" where
  "pair_consistent c =
     (case storm_pair c of None \<Rightarrow> True | Some vs \<Rightarrow> (fst vs = JNull) = (snd vs = JNull))"

definition pair_nonnull :: "json \<Rightarrow> bool" where
  "pair_nonnull c =
     (case storm_pair c of None \<Rightarrow> True | Some vs \<Rightarrow> fst vs \<noteq> JNull \<and> snd vs \<noteq> JNull)"


text \<open>Every input field with the key of the packet it is written under, or from which
  that key is computed (\<open>rainRate\<close> from \<open>rain_rate_last\<close>, \<open>rain\<close> from \<open>rain_storm\<close>).\<close>

definition field_table :: "(string \<times> string) list" where
  "field_table =
     iss_fields @ [(''rain_rate_last'', ''rainRate''), (''rain_storm'', ''rain'')]
     @ iss_fields_tail @ leaf_soil_fields @ bar_fields @ inside_fields"

definition key_sources :: "string \<Rightarrow> string list" where
  "key_sources k = map fst (filter (\<lambda>fk. snd fk = k) field_table)"

fun has_field :: "json \<Rightarrow> string \<Rightarrow> bool" where
  "has_field (JDict d) f = (map_of d f \<noteq> None)"
| "has_field _ f = False"

section \<open>Properties\<close>

subsection \<open>Evaluation and copied fields\<close>

lemmas wll_eval =
  cycle_def parse_handler_def py_sleep_def normalize_def rain_block_def rain_storm_block_def
  storm_step_def storm_delta_def rain_rate_def assign_rain_count_size_def
  rain_size_in_range_def py_le_def py_mul_float_def copy_fields_def copy_field_def
  iss_fields_def iss_fields_tail_def leaf_soil_fields_def bar_fields_def inside_fields_def
  weewx_US_def MM_TO_INCH_def WLL_init_def process_condition.simps

declare process_condition.simps [simp del]

lemma map_of_copy_field:
  "map_of (copy_field c fk p) k =
     (if snd fk = k then (case map_of c (fst fk) of None \<Rightarrow> map_of p k | Some v \<Rightarrow> Some v)
      else map_of p k)"
  by (simp add: copy_field_def update_conv' split: option.splits)

lemma copy_fields_Nil: "copy_fields c [] p = p"
  by (simp add: copy_fields_def)

lemma copy_fields_snoc: "copy_fields c (fks @ [fk]) p = copy_field c fk (copy_fields c fks p)"
  by (simp add: copy_fields_def)

lemma copy_fields_append:
  "copy_fields c (fks @ fks') p = copy_fields c fks' (copy_fields c fks p)"
  by (simp add: copy_fields_def)

lemma map_of_copy_fields_absent:
  "(\<And>f. (f, k) \<in> set fks \<Longrightarrow> map_of c f = None) \<Longrightarrow>
   map_of (copy_fields c fks p) k = map_of p k"
proof (induction fks rule: rev_induct)
  case Nil
  show ?case by (simp add: copy_fields_Nil)
next
  case (snoc fk fks)
  have "map_of (copy_fields c fks p) k = map_of p k"
    using snoc.prems by (intro snoc.IH) simp
  moreover have "snd fk = k \<Longrightarrow> map_of c (fst fk) = None"
    using snoc.prems [of "fst fk"] by (cases fk) simp
  ultimately show ?case
    by (simp add: copy_fields_snoc map_of_copy_field)
qed

lemma map_of_copy_fields_present:
  "(f, k) \<in> set fks \<Longrightarrow> map_of c f = Some v \<Longrightarrow>
   (\<And>f'. (f', k) \<in> set fks \<Longrightarrow> f' \<noteq> f \<Longrightarrow> map_of c f' = None) \<Longrightarrow>
   map_of (copy_fields c fks p) k = Some v"
proof (induction fks rule: rev_induct)
  case Nil
  then show ?case by simp
next
  case (snoc fk fks)
  show ?case
  proof (cases "fk = (f, k)")
    case True
    then show ?thesis
      using snoc.prems(2) by (simp add: copy_fields_snoc map_of_copy_field)
  next
    case False
    then have mem: "(f, k) \<in> set fks"
      using snoc.prems(1) by auto
    have ih: "map_of (copy_fields c fks p) k = Some v"
      using mem snoc.prems(2,3) by (intro snoc.IH) auto
    have "snd fk = k \<Longrightarrow> map_of c (fst fk) = None"
      using False snoc.prems(3) [of "fst fk"] by (cases fk) auto
    then show ?thesis
      using ih by (simp add: copy_fields_snoc map_of_copy_field)
  qed
qed

subsection \<open>What the rain collector's lines leave alone\<close>

lemma rain_rate_frame:
  "rain_rate sf rcs c p = Inr p' \<Longrightarrow> k \<noteq> ''rainRate'' \<Longrightarrow> map_of p' k = map_of p k"
  by (auto simp: rain_rate_def update_conv' split: option.splits sum.splits)

lemma storm_step_Inr:
  "storm_step sf st v s = (st', Inr d) \<Longrightarrow>
   st' = st\<lparr>last_rain_storm := v, last_rain_storm_start_at := s\<rparr> \<and> storm_delta sf st v s = Inr d"
  by (simp add: storm_step_def split: sum.splits)

lemma storm_step_Inl:
  "storm_step sf st v s = (st', Inl e) \<Longrightarrow> st' = st \<and> storm_delta sf st v s = Inl e"
  by (simp add: storm_step_def split: sum.splits)

lemma rain_storm_block_frame:
  assumes "rain_storm_block sf st c p = (st', Inr p')" and "k \<noteq> ''rain''"
  shows "map_of p' k = map_of p k"
proof (cases "storm_pair (JDict c)")
  case None
  then have "rain_storm_block sf st c p = (st, Inr p)"
    by (simp add: rain_storm_block_def split: option.splits)
  with assms show ?thesis by simp
next
  case (Some vs)
  then have v: "map_of c ''rain_storm'' = Some (fst vs)"
    and s: "map_of c ''rain_storm_start_at'' = Some (snd vs)"
    by (auto split: option.splits)
  obtain st1 r where step: "storm_step sf st (fst vs) (snd vs) = (st1, r)"
    by (cases "storm_step sf st (fst vs) (snd vs)")
  show ?thesis
    using assms step
    by (cases r; cases "rain_count_size st1")
       (auto simp: rain_storm_block_def v s update_conv' split: sum.splits)
qed

subsection \<open>Comparisons and conversions of numbers\<close>



lemma py_eq_JInt: "py_eq t (JInt n) = (num_of t = Some (of_int n))"
  by (cases t) auto





lemma rain_block_in_range:
  "map_of c ''rain_size'' = Some rs \<Longrightarrow> rain_size_in_range rs = Inr True \<Longrightarrow>
   rain_block sf st c p =
     (case rain_rate sf (assign_rain_count_size rs (rain_count_size st)) c p of
        Inl e \<Rightarrow> (st\<lparr>rain_count_size := assign_rain_count_size rs (rain_count_size st)\<rparr>, Inl e)
      | Inr p1 \<Rightarrow>
          rain_storm_block sf
            (st\<lparr>rain_count_size := assign_rain_count_size rs (rain_count_size st)\<rparr>) c p1)"
  by (simp add: rain_block_def Let_def)

lemma rain_block_skip:
  "map_of c ''rain_size'' = None \<Longrightarrow> rain_block sf st c p = (st, Inr p)"
  "map_of c ''rain_size'' = Some rs \<Longrightarrow> rain_size_in_range rs = Inr False \<Longrightarrow>
   rain_block sf st c p = (st, Inr p)"
  "map_of c ''rain_size'' = Some rs \<Longrightarrow> rain_size_in_range rs = Inl e \<Longrightarrow>
   rain_block sf st c p = (st, Inl e)"
  by (simp_all add: rain_block_def)

lemma rain_block_frame:
  assumes "rain_block sf st c p = (st', Inr p')" and "k \<noteq> ''rainRate''" and "k \<noteq> ''rain''"
  shows "map_of p' k = map_of p k"
proof (cases "map_of c ''rain_size''")
  case None
  with assms show ?thesis by (simp add: rain_block_skip)
next
  case (Some rs)
  show ?thesis
  proof (cases "rain_size_in_range rs")
    case (Inl e)
    with assms Some show ?thesis by (simp add: rain_block_skip)
  next
    case (Inr b)
    show ?thesis
    proof (cases b)
      case False
      with assms Some Inr show ?thesis by (simp add: rain_block_skip)
    next
      case True
      note rb = rain_block_in_range [OF Some, of sf st p] 
      show ?thesis
      proof (cases "rain_rate sf (assign_rain_count_size rs (rain_count_size st)) c p")
        case (Inl e)
        with assms rb Inr True show ?thesis by simp
      next
        case (Inr p1)
        with assms rb \<open>rain_size_in_range rs = Inr b\<close> True
        have "rain_storm_block sf
            (st\<lparr>rain_count_size := assign_rain_count_size rs (rain_count_size st)\<rparr>) c p1
            = (st', Inr p')" by simp
        then have "map_of p' k = map_of p1 k"
          using assms(3) by (rule rain_storm_block_frame)
        also have "map_of p1 k = map_of p k"
          using Inr assms(2) by (rule rain_rate_frame)
        finally show ?thesis .
      qed
    qed
  qed
qed

subsection \<open>The loop over the records\<close>

lemma process_condition_unknown:
  assumes "map_of c ''data_structure_type'' = Some t"
    and "num_of t \<noteq> Some 1" "num_of t \<noteq> Some 2" "num_of t \<noteq> Some 3" "num_of t \<noteq> Some 4"
  shows "process_condition sf st p (JDict c) = (st, Inr p)"
  using assms by (simp add: process_condition.simps py_eq_JInt)

lemma process_conditions_append:
  "process_conditions sf st p (cs @ cs') =
     (case process_conditions sf st p cs of
        (st', Inl e) \<Rightarrow> (st', Inl e)
      | (st', Inr p') \<Rightarrow> process_conditions sf st' p' cs')"
proof (induction cs arbitrary: st p)
  case Nil
  show ?case by simp
next
  case (Cons c cs)
  obtain st1 r where pc: "process_condition sf st p c = (st1, r)"
    by (cases "process_condition sf st p c")
  show ?case
  proof (cases r)
    case (Inl e)
    with pc show ?thesis by simp
  next
    case (Inr p1)
    with pc Cons.IH [of st1 p1] show ?thesis by simp
  qed
qed

lemma normalize_conditions:
  "py_getitem data ''data'' = Inr d \<Longrightarrow> py_getitem d ''ts'' = Inr ts \<Longrightarrow>
   py_getitem d ''conditions'' = Inr cv \<Longrightarrow> py_iter cv = Inr cs \<Longrightarrow>
   normalize sf st data =
     process_conditions sf st [(''dateTime'', ts), (''usUnits'', JInt 1)] cs"
  by (simp add: normalize_def weewx_US_def)

subsection \<open>An ISS record, step by step\<close>

lemma map_of_copy_fields_other:
  "k \<notin> snd ` set fks \<Longrightarrow> map_of (copy_fields c fks p) k = map_of p k"
  by (rule map_of_copy_fields_absent) force

lemma process_condition_iss:
  "map_of c ''data_structure_type'' = Some t \<Longrightarrow> py_eq t (JInt 1) \<Longrightarrow>
   process_condition sf st p (JDict c) =
     (case rain_block sf st c (copy_fields c iss_fields p) of
        (st', Inl e) \<Rightarrow> (st', Inl e)
      | (st', Inr p') \<Rightarrow> (st', Inr (copy_fields c iss_fields_tail p')))"
  by (simp add: process_condition.simps)

lemma process_condition_iss_Inr:
  assumes "map_of c ''data_structure_type'' = Some t" and "py_eq t (JInt 1)"
    and "process_condition sf st p (JDict c) = (st', Inr p')"
  obtains p1 where "rain_block sf st c (copy_fields c iss_fields p) = (st', Inr p1)"
    and "p' = copy_fields c iss_fields_tail p1"
proof -
  obtain st1 r where rb: "rain_block sf st c (copy_fields c iss_fields p) = (st1, r)"
    by (cases "rain_block sf st c (copy_fields c iss_fields p)")
  show ?thesis
  proof (cases r)
    case (Inl e)
    with rb assms show ?thesis by (simp add: process_condition_iss)
  next
    case (Inr p1)
    with rb assms have "st1 = st'" "p' = copy_fields c iss_fields_tail p1"
      by (simp_all add: process_condition_iss)
    with rb Inr that show ?thesis by simp
  qed
qed

lemma rain_block_in_range_Inr:
  assumes "map_of c ''rain_size'' = Some rs" and "rain_size_in_range rs = Inr True"
    and "rain_block sf st c p = (st', Inr p')"
  obtains p0 where
    "rain_rate sf (assign_rain_count_size rs (rain_count_size st)) c p = Inr p0"
    and "rain_storm_block sf
           (st\<lparr>rain_count_size := assign_rain_count_size rs (rain_count_size st)\<rparr>) c p0
         = (st', Inr p')"
proof (cases "rain_rate sf (assign_rain_count_size rs (rain_count_size st)) c p")
  case (Inl e)
  with assms show ?thesis by (simp add: rain_block_in_range)
next
  case (Inr p0)
  with assms that show ?thesis by (simp add: rain_block_in_range)
qed

lemma rain_storm_block_Inr:
  assumes "map_of c ''rain_storm'' = Some v" and "map_of c ''rain_storm_start_at'' = Some s"
    and "rain_storm_block sf st c p = (st', Inr p')"
  obtains d m w where "storm_step sf st v s = (st', Inr d)"
    and "rain_count_size st' = Some m" and "py_mul_float d m = Inr w"
    and "p' = AList.update ''rain'' w p"
proof -
  obtain st1 r where step: "storm_step sf st v s = (st1, r)"
    by (cases "storm_step sf st v s")
  show ?thesis
  proof (cases r)
    case (Inl e)
    with step assms show ?thesis by (simp add: rain_storm_block_def)
  next
    case (Inr d)
    show ?thesis
    proof (cases "rain_count_size st1")
      case None
      with Inr step assms show ?thesis by (simp add: rain_storm_block_def)
    next
      case (Some m)
      show ?thesis
      proof (cases "py_mul_float d m")
        case (Inl e)
        with Some Inr step assms show ?thesis by (simp add: rain_storm_block_def)
      next
        case (Inr w)
        with Some \<open>r = Inr d\<close> step assms have "st1 = st'" "p' = AList.update ''rain'' w p"
          by (simp_all add: rain_storm_block_def)
        with Some \<open>r = Inr d\<close> step Inr that show ?thesis by simp
      qed
    qed
  qed
qed

lemma storm_delta_rain_count_size [simp]:
  "storm_delta sf (st\<lparr>rain_count_size := z\<rparr>) v s = storm_delta sf st v s"
  by (simp add: storm_delta_def cong: sum.case_cong if_cong)







subsection \<open>Observations of one storm\<close>


subsection \<open>The poll interval and the passes of the loop\<close>

lemma storm_step_poll_interval:
  "poll_interval (fst (storm_step sf st v s)) = poll_interval st"
  by (simp add: storm_step_def split: sum.splits)

lemma rain_storm_block_poll_interval:
  "poll_interval (fst (rain_storm_block sf st c p)) = poll_interval st"
proof (cases "storm_pair (JDict c)")
  case None
  then have "rain_storm_block sf st c p = (st, Inr p)"
    by (simp add: rain_storm_block_def split: option.splits)
  then show ?thesis by simp
next
  case (Some vs)
  then have v: "map_of c ''rain_storm'' = Some (fst vs)"
    and s: "map_of c ''rain_storm_start_at'' = Some (snd vs)"
    by (auto split: option.splits)
  obtain st1 r where step: "storm_step sf st (fst vs) (snd vs) = (st1, r)"
    by (cases "storm_step sf st (fst vs) (snd vs)")
  then have "poll_interval st1 = poll_interval st"
    using storm_step_poll_interval [of sf st "fst vs" "snd vs"] by simp
  then show ?thesis
    using step
    by (cases r; cases "rain_count_size st1")
       (auto simp: rain_storm_block_def v s split: sum.splits)
qed

lemma rain_block_poll_interval:
  "poll_interval (fst (rain_block sf st c p)) = poll_interval st"
proof (cases "map_of c ''rain_size''")
  case None
  then show ?thesis by (simp add: rain_block_skip)
next
  case (Some rs)
  show ?thesis
  proof (cases "rain_size_in_range rs")
    case (Inl e)
    with Some show ?thesis by (simp add: rain_block_skip)
  next
    case (Inr b)
    show ?thesis
    proof (cases b)
      case False
      with Some Inr show ?thesis by (simp add: rain_block_skip)
    next
      case True
      with Some Inr show ?thesis
        by (cases "rain_rate sf (assign_rain_count_size rs (rain_count_size st)) c p")
           (simp_all add: rain_block_in_range rain_storm_block_poll_interval)
    qed
  qed
qed

lemma process_condition_poll_interval:
  "poll_interval (fst (process_condition sf st p c)) = poll_interval st"
proof (cases c)
  case (JDict d)
  show ?thesis
  proof (cases "map_of d ''data_structure_type''")
    case None
    with JDict show ?thesis by (simp add: process_condition.simps)
  next
    case (Some t)
    obtain st1 r where rb: "rain_block sf st d (copy_fields d iss_fields p) = (st1, r)"
      by (cases "rain_block sf st d (copy_fields d iss_fields p)")
    then have "poll_interval st1 = poll_interval st"
      using rain_block_poll_interval [of sf st d "copy_fields d iss_fields p"] by simp
    with JDict Some rb show ?thesis
      by (cases r) (simp_all add: process_condition.simps)
  qed
qed (simp_all add: process_condition.simps)

lemma process_conditions_poll_interval:
  "poll_interval (fst (process_conditions sf st p cs)) = poll_interval st"
proof (induction cs arbitrary: st p)
  case Nil
  show ?case by simp
next
  case (Cons c cs)
  obtain st1 r where pc: "process_condition sf st p c = (st1, r)"
    by (cases "process_condition sf st p c")
  then have "poll_interval st1 = poll_interval st"
    using process_condition_poll_interval [of sf st p c] by simp
  with pc Cons.IH [of st1] show ?case
    by (cases r) simp_all
qed

lemma normalize_poll_interval:
  "poll_interval (fst (normalize sf st data)) = poll_interval st"
  by (simp add: normalize_def process_conditions_poll_interval split: sum.splits)

lemma parse_handler_nonneg:
  "0 \<le> poll_interval st \<Longrightarrow>
   parse_handler st e =
     ([Logerr ''Error parsing the WeatherLink Live json data.'', LogerrException e,
       Sleep (poll_interval st)], True)"
  by (simp add: parse_handler_def py_sleep_def)

lemma cycle_nonneg:
  assumes "0 \<le> poll_interval st"
  shows "poll_interval (fst (cycle sf st r)) = poll_interval st"
    and "snd (snd (cycle sf st r))"
    and "Raise e \<notin> set (fst (snd (cycle sf st r)))"
proof -
  show "poll_interval (fst (cycle sf st r)) = poll_interval st"
  proof (cases r)
    case (Json data)
    obtain st1 x where n: "normalize sf st data = (st1, x)"
      by (cases "normalize sf st data")
    with Json show ?thesis
      using normalize_poll_interval [of sf st data]
      by (cases x) (simp_all add: cycle_def split: sum.splits)
  qed (simp_all add: cycle_def)
  show "snd (snd (cycle sf st r))"
  proof (cases r)
    case (Json data)
    obtain st1 x where n: "normalize sf st data = (st1, x)"
      by (cases "normalize sf st data")
    then have "0 \<le> poll_interval st1"
      using normalize_poll_interval [of sf st data] assms by simp
    with Json n show ?thesis
      by (cases x) (simp_all add: cycle_def parse_handler_nonneg py_sleep_def)
  qed (simp_all add: cycle_def parse_handler_nonneg assms)
  show "Raise e \<notin> set (fst (snd (cycle sf st r)))"
  proof (cases r)
    case (Json data)
    obtain st1 x where n: "normalize sf st data = (st1, x)"
      by (cases "normalize sf st data")
    then have "0 \<le> poll_interval st1"
      using normalize_poll_interval [of sf st data] assms by simp
    with Json n show ?thesis
      by (cases x) (simp_all add: cycle_def parse_handler_nonneg py_sleep_def)
  qed (simp_all add: cycle_def parse_handler_nonneg assms)
qed

lemma genLoopPackets_never_raises:
  "0 \<le> poll_interval st \<Longrightarrow> Raise e \<notin> set (genLoopPackets sf st rs)"
proof (induction rs arbitrary: st)
  case Nil
  show ?case by simp
next
  case (Cons r rs)
  obtain st1 evs go where c: "cycle sf st r = (st1, evs, go)"
    by (cases "cycle sf st r")
  have "poll_interval st1 = poll_interval st" "go" "Raise e \<notin> set evs"
    using cycle_nonneg(1) [OF Cons.prems, of sf r] cycle_nonneg(2) [OF Cons.prems, of sf r]
      cycle_nonneg(3) [OF Cons.prems, of e sf r] c by simp_all
  with c Cons.IH [of st1] Cons.prems show ?case by simp
qed

lemma negative_poll_interval_ends_loop:
  "genLoopPackets sf (WLL_init (- 1)) (NotJson # rs) =
     [Logerr ''Error parsing the WeatherLink Live json data.'', LogerrException ValueError,
      Raise ValueError]"
  by (simp add: cycle_def parse_handler_def py_sleep_def WLL_init_def)

subsection \<open>The stored pair\<close>

lemma stored_rain_count_size [simp]: "stored (st\<lparr>rain_count_size := z\<rparr>) = stored st"
  by (simp add: stored_def)

lemma storm_step_stored:
  "stored (fst (storm_step sf st v s)) = stored st \<or> stored (fst (storm_step sf st v s)) = (v, s)"
  by (simp add: storm_step_def stored_def split: sum.splits)

lemma rain_storm_block_stored:
  "stored (fst (rain_storm_block sf st c p)) = stored st
   \<or> storm_pair (JDict c) = Some (stored (fst (rain_storm_block sf st c p)))"
proof (cases "storm_pair (JDict c)")
  case None
  then have "rain_storm_block sf st c p = (st, Inr p)"
    by (simp add: rain_storm_block_def split: option.splits)
  then show ?thesis by simp
next
  case (Some vs)
  then have v: "map_of c ''rain_storm'' = Some (fst vs)"
    and s: "map_of c ''rain_storm_start_at'' = Some (snd vs)"
    by (auto split: option.splits)
  obtain st1 r where step: "storm_step sf st (fst vs) (snd vs) = (st1, r)"
    by (cases "storm_step sf st (fst vs) (snd vs)")
  have fst: "fst (rain_storm_block sf st c p) = st1"
    using step
    by (cases r; cases "rain_count_size st1")
       (auto simp: rain_storm_block_def v s split: sum.splits)
  have "stored st1 = stored st \<or> stored st1 = (fst vs, snd vs)"
    using storm_step_stored [of sf st "fst vs" "snd vs"] step by simp
  then show ?thesis
    using fst Some by auto
qed

lemma rain_block_stored:
  "stored (fst (rain_block sf st c p)) = stored st
   \<or> storm_pair (JDict c) = Some (stored (fst (rain_block sf st c p)))"
proof (cases "map_of c ''rain_size''")
  case None
  then show ?thesis by (simp add: rain_block_skip)
next
  case (Some rs)
  show ?thesis
  proof (cases "rain_size_in_range rs")
    case (Inl e)
    with Some show ?thesis by (simp add: rain_block_skip)
  next
    case (Inr b)
    show ?thesis
    proof (cases b)
      case False
      with Some Inr show ?thesis by (simp add: rain_block_skip)
    next
      case True
      let ?st1 = "st\<lparr>rain_count_size := assign_rain_count_size rs (rain_count_size st)\<rparr>"
      show ?thesis
      proof (cases "rain_rate sf (assign_rain_count_size rs (rain_count_size st)) c p")
        case (Inl e)
        with Some \<open>rain_size_in_range rs = Inr b\<close> True show ?thesis
          by (simp add: rain_block_in_range)
      next
        case (Inr p0)
        with Some \<open>rain_size_in_range rs = Inr b\<close> True
        have "rain_block sf st c p = rain_storm_block sf ?st1 c p0"
          by (simp add: rain_block_in_range)
        then show ?thesis
          using rain_storm_block_stored [of sf ?st1 c p0] by simp
      qed
    qed
  qed
qed

lemma process_condition_stored:
  "stored (fst (process_condition sf st p c)) = stored st
   \<or> storm_pair c = Some (stored (fst (process_condition sf st p c)))"
proof (cases c)
  case (JDict d)
  show ?thesis
  proof (cases "map_of d ''data_structure_type''")
    case None
    with JDict show ?thesis by (simp add: process_condition.simps)
  next
    case (Some t)
    obtain st1 r where rb: "rain_block sf st d (copy_fields d iss_fields p) = (st1, r)"
      by (cases "rain_block sf st d (copy_fields d iss_fields p)")
    then have "stored st1 = stored st \<or> storm_pair (JDict d) = Some (stored st1)"
      using rain_block_stored [of sf st d "copy_fields d iss_fields p"] by simp
    moreover have "fst (process_condition sf st p (JDict d)) = st1
        \<or> fst (process_condition sf st p (JDict d)) = st"
      using Some rb by (cases r) (simp_all add: process_condition.simps)
    ultimately show ?thesis using JDict by auto
  qed
qed (simp_all add: process_condition.simps)

lemma process_conditions_stored:
  "stored (fst (process_conditions sf st p cs)) = stored st
   \<or> list_ex (\<lambda>c. storm_pair c = Some (stored (fst (process_conditions sf st p cs)))) cs"
proof (induction cs arbitrary: st p)
  case Nil
  show ?case by simp
next
  case (Cons c cs)
  obtain st1 r where pc: "process_condition sf st p c = (st1, r)"
    by (cases "process_condition sf st p c")
  have one: "stored st1 = stored st \<or> storm_pair c = Some (stored st1)"
    using process_condition_stored [of sf st p c] pc by simp
  show ?case
  proof (cases r)
    case (Inl e)
    with pc one show ?thesis by auto
  next
    case (Inr p1)
    then have eq: "process_conditions sf st p (c # cs) = process_conditions sf st1 p1 cs"
      using pc by simp
    show ?thesis
      using Cons.IH [of st1 p1] one unfolding eq by auto
  qed
qed

lemma normalize_cases:
  "(\<exists>e. normalize sf st data = (st, Inl e) \<and> conditions_of data = [])
   \<or> (\<exists>ts. normalize sf st data =
         process_conditions sf st [(''dateTime'', ts), (''usUnits'', JInt 1)] (conditions_of data))"
  by (auto simp: normalize_def conditions_of_def weewx_US_def split: sum.splits)

lemma normalize_stored:
  "stored (fst (normalize sf st data)) = stored st
   \<or> list_ex (\<lambda>c. storm_pair c = Some (stored (fst (normalize sf st data)))) (conditions_of data)"
proof -
  consider (fail) e where "normalize sf st data = (st, Inl e)"
    | (loop) ts where "normalize sf st data =
         process_conditions sf st [(''dateTime'', ts), (''usUnits'', JInt 1)] (conditions_of data)"
    using normalize_cases [of sf st data] by blast
  then show ?thesis
  proof cases
    case fail
    then show ?thesis by simp
  next
    case loop
    show ?thesis
      unfolding loop by (rule process_conditions_stored)
  qed
qed

lemma cycle_state:
  "fst (cycle sf st r) = (case r of Json data \<Rightarrow> fst (normalize sf st data) | _ \<Rightarrow> st)"
  by (simp add: cycle_def split: response.splits prod.splits sum.splits)

lemma cycle_stored:
  "stored (fst (cycle sf st r)) = stored st
   \<or> list_ex (\<lambda>c. storm_pair c = Some (stored (fst (cycle sf st r)))) (records_of r)"
  using normalize_stored [of sf st]
  by (cases r) (simp_all add: cycle_state records_of_def)

lemma precip_capable_stored:
  assumes "precip_capable c" and "process_condition sf st p c = (st', Inr p')"
  shows "storm_pair c = Some (stored st')"
proof (cases c)
  case (JDict d)
  from assms(1) JDict obtain t rs vs where t: "map_of d ''data_structure_type'' = Some t"
    and one: "py_eq t (JInt 1)" and rs: "map_of d ''rain_size'' = Some rs"
    and range: "rain_size_in_range rs = Inr True" and pair: "storm_pair (JDict d) = Some vs"
    by (auto split: option.splits)
  from pair have v: "map_of d ''rain_storm'' = Some (fst vs)"
    and s: "map_of d ''rain_storm_start_at'' = Some (snd vs)"
    by (auto split: option.splits)
  let ?st1 = "st\<lparr>rain_count_size := assign_rain_count_size rs (rain_count_size st)\<rparr>"
  obtain p1 where rb: "rain_block sf st d (copy_fields d iss_fields p) = (st', Inr p1)"
    using t one assms(2) [unfolded JDict] by (rule process_condition_iss_Inr)
  obtain p0 where sb: "rain_storm_block sf ?st1 d p0 = (st', Inr p1)"
    using rs range rb by (rule rain_block_in_range_Inr)
  obtain x where step: "storm_step sf ?st1 (fst vs) (snd vs) = (st', Inr x)"
    using v s sb by (rule rain_storm_block_Inr)
  have "st' = ?st1\<lparr>last_rain_storm := fst vs, last_rain_storm_start_at := snd vs\<rparr>"
    using storm_step_Inr [OF step] by simp
  then have "stored st' = vs" by (simp add: stored_def)
  with pair JDict show ?thesis by simp
qed (use assms(1) in simp_all)

lemma process_conditions_capable_stored:
  "process_conditions sf st p cs = (st', Inr p') \<Longrightarrow> list_ex precip_capable cs \<Longrightarrow>
   list_ex (\<lambda>c. storm_pair c = Some (stored st')) cs"
proof (induction cs arbitrary: st p)
  case Nil
  then show ?case by simp
next
  case (Cons c cs)
  obtain st1 r where pc: "process_condition sf st p c = (st1, r)"
    by (cases "process_condition sf st p c")
  show ?case
  proof (cases r)
    case (Inl e)
    with pc Cons.prems(1) show ?thesis by simp
  next
    case (Inr p1)
    with pc Cons.prems(1) have rest: "process_conditions sf st1 p1 cs = (st', Inr p')"
      by simp
    show ?thesis
    proof (cases "list_ex precip_capable cs")
      case True
      with rest have "list_ex (\<lambda>c. storm_pair c = Some (stored st')) cs"
        by (rule Cons.IH)
      then show ?thesis by simp
    next
      case False
      with Cons.prems(2) have "precip_capable c" by simp
      then have here: "storm_pair c = Some (stored st1)"
        using pc Inr by (intro precip_capable_stored) simp_all
      have "stored st' = stored st1 \<or> list_ex (\<lambda>c. storm_pair c = Some (stored st')) cs"
        using process_conditions_stored [of sf st1 p1 cs] rest by simp
      with here show ?thesis by auto
    qed
  qed
qed

lemma pair_nonnull_stored:
  "list_all pair_nonnull cs \<Longrightarrow> list_ex (\<lambda>c. storm_pair c = Some (stored st)) cs \<Longrightarrow>
   last_rain_storm st \<noteq> JNull \<and> last_rain_storm_start_at st \<noteq> JNull"
  by (induction cs) (auto simp: pair_nonnull_def stored_def)

lemma pair_consistent_stored:
  "list_all pair_consistent cs \<Longrightarrow> list_ex (\<lambda>c. storm_pair c = Some (stored st)) cs \<Longrightarrow>
   precip_inv st"
  by (induction cs) (auto simp: pair_consistent_def stored_def precip_inv_def)

lemma stored_eq_precip_inv: "stored st' = stored st \<Longrightarrow> precip_inv st' = precip_inv st"
  by (simp add: stored_def precip_inv_def)

subsection \<open>Copied fields of a record\<close>

lemma iss_keys_apart:
  "k \<in> snd ` set iss_fields \<Longrightarrow>
   k \<notin> snd ` set iss_fields_tail \<and> k \<noteq> ''rainRate'' \<and> k \<noteq> ''rain''"
  by (auto simp: iss_fields_def iss_fields_tail_def)

lemma passthrough_field:
  assumes t: "map_of c ''data_structure_type'' = Some t"
    and mem: "(f, k) \<in> set (passthrough_fields t)"
    and v: "map_of c f = Some v"
    and only: "\<And>f'. (f', k) \<in> set (passthrough_fields t) \<Longrightarrow> f' \<noteq> f \<Longrightarrow> map_of c f' = None"
    and run: "process_condition sf st p (JDict c) = (st', Inr p')"
  shows "map_of p' k = Some v"
proof (cases "py_eq t (JInt 1)")
  case True
  then have fields: "passthrough_fields t = iss_fields @ iss_fields_tail"
    by (simp add: passthrough_fields_def)
  obtain p1 where rb: "rain_block sf st c (copy_fields c iss_fields p) = (st', Inr p1)"
    and p': "p' = copy_fields c iss_fields_tail p1"
    using t True run by (rule process_condition_iss_Inr)
  show ?thesis
  proof (cases "(f, k) \<in> set iss_fields_tail")
    case True
    then show ?thesis
      unfolding p' using v only by (intro map_of_copy_fields_present) (auto simp: fields)
  next
    case False
    with mem have head: "(f, k) \<in> set iss_fields" by (simp add: fields)
    then have "k \<in> snd ` set iss_fields" by force
    then have apart: "k \<notin> snd ` set iss_fields_tail" "k \<noteq> ''rainRate''" "k \<noteq> ''rain''"
      using iss_keys_apart by blast+
    have "map_of (copy_fields c iss_fields p) k = Some v"
      using head v only by (intro map_of_copy_fields_present) (auto simp: fields)
    moreover have "map_of p1 k = map_of (copy_fields c iss_fields p) k"
      using rb apart(2,3) by (rule rain_block_frame)
    moreover have "map_of p' k = map_of p1 k"
      unfolding p' using apart(1) by (rule map_of_copy_fields_other)
    ultimately show ?thesis by simp
  qed
next
  case False
  then have p': "p' = copy_fields c (passthrough_fields t) p"
    using t run mem by (auto simp: process_condition.simps passthrough_fields_def split: if_splits)
  show ?thesis
    unfolding p' using mem v only by (intro map_of_copy_fields_present) auto
qed

subsection \<open>Keys whose input fields are absent\<close>

lemma key_sources_iff: "f \<in> set (key_sources k) \<longleftrightarrow> (f, k) \<in> set field_table"
  by (force simp: key_sources_def)

lemma rain_rate_absent:
  "map_of c ''rain_rate_last'' = None \<Longrightarrow> rain_rate sf rcs c p = Inr p"
  by (simp add: rain_rate_def)

lemma rain_storm_block_absent:
  "map_of c ''rain_storm'' = None \<Longrightarrow> rain_storm_block sf st c p = (st, Inr p)"
  by (simp add: rain_storm_block_def)

lemma rain_block_absent:
  assumes rb: "rain_block sf st c p = (st', Inr p')"
    and rate: "k = ''rainRate'' \<Longrightarrow> map_of c ''rain_rate_last'' = None"
    and rain: "k = ''rain'' \<Longrightarrow> map_of c ''rain_storm'' = None"
  shows "map_of p' k = map_of p k"
proof (cases "map_of c ''rain_size''")
  case None
  with rb show ?thesis by (simp add: rain_block_skip)
next
  case (Some rs)
  show ?thesis
  proof (cases "rain_size_in_range rs")
    case (Inl e)
    with rb Some show ?thesis by (simp add: rain_block_skip)
  next
    case (Inr b)
    show ?thesis
    proof (cases b)
      case False
      with rb Some Inr show ?thesis by (simp add: rain_block_skip)
    next
      case True
      with Inr have range: "rain_size_in_range rs = Inr True" by simp
      let ?st1 = "st\<lparr>rain_count_size := assign_rain_count_size rs (rain_count_size st)\<rparr>"
      obtain p0 where rr: "rain_rate sf (assign_rain_count_size rs (rain_count_size st)) c p = Inr p0"
        and sb: "rain_storm_block sf ?st1 c p0 = (st', Inr p')"
        using Some range rb by (rule rain_block_in_range_Inr)
      have "map_of p0 k = map_of p k"
      proof (cases "k = ''rainRate''")
        case True
        then show ?thesis using rr rate by (simp add: rain_rate_absent)
      next
        case False
        with rr show ?thesis by (rule rain_rate_frame)
      qed
      moreover have "map_of p' k = map_of p0 k"
      proof (cases "k = ''rain''")
        case True
        then show ?thesis using sb rain by (simp add: rain_storm_block_absent)
      next
        case False
        with sb show ?thesis by (rule rain_storm_block_frame)
      qed
      ultimately show ?thesis by simp
    qed
  qed
qed

lemma process_condition_absent:
  assumes run: "process_condition sf st p c = (st', Inr p')"
    and absent: "list_all (\<lambda>f. \<not> has_field c f) (key_sources k)"
  shows "map_of p' k = map_of p k"
proof (cases c)
  case (JDict d)
  have none: "map_of d f = None" if "(f, k) \<in> set field_table" for f
    using absent that JDict by (auto simp: list_all_iff key_sources_iff)
  show ?thesis
  proof (cases "map_of d ''data_structure_type''")
    case None
    with run JDict show ?thesis by (simp add: process_condition.simps)
  next
    case (Some t)
    show ?thesis
    proof (cases "py_eq t (JInt 1)")
      case True
      obtain p1 where rb: "rain_block sf st d (copy_fields d iss_fields p) = (st', Inr p1)"
        and p': "p' = copy_fields d iss_fields_tail p1"
        using Some True run [unfolded JDict] by (rule process_condition_iss_Inr)
      have "map_of (copy_fields d iss_fields p) k = map_of p k"
        by (rule map_of_copy_fields_absent) (simp add: none field_table_def)
      moreover have "map_of p1 k = map_of (copy_fields d iss_fields p) k"
        using rb by (rule rain_block_absent) (simp_all add: none field_table_def)
      moreover have "map_of p' k = map_of p1 k"
        unfolding p' by (rule map_of_copy_fields_absent) (simp add: none field_table_def)
      ultimately show ?thesis by simp
    next
      case False
      then have p': "p' = copy_fields d (passthrough_fields t) p"
        and sub: "set (passthrough_fields t) \<subseteq> set field_table"
        using Some run JDict
        by (auto simp: process_condition.simps passthrough_fields_def field_table_def
            copy_fields_Nil split: if_splits)
      show ?thesis
        unfolding p' using sub by (intro map_of_copy_fields_absent none) auto
    qed
  qed
qed (use run in \<open>simp_all add: process_condition.simps\<close>)

lemma process_conditions_absent:
  "process_conditions sf st p cs = (st', Inr p') \<Longrightarrow>
   list_all (\<lambda>c. list_all (\<lambda>f. \<not> has_field c f) (key_sources k)) cs \<Longrightarrow>
   map_of p' k = map_of p k"
proof (induction cs arbitrary: st p)
  case Nil
  then show ?case by simp
next
  case (Cons c cs)
  obtain st1 r where pc: "process_condition sf st p c = (st1, r)"
    by (cases "process_condition sf st p c")
  show ?case
  proof (cases r)
    case (Inl e)
    with pc Cons.prems(1) show ?thesis by simp
  next
    case (Inr p1)
    with pc Cons.prems(1) have rest: "process_conditions sf st1 p1 cs = (st', Inr p')"
      by simp
    have here: "list_all (\<lambda>f. \<not> has_field c f) (key_sources k)"
      and there: "list_all (\<lambda>c. list_all (\<lambda>f. \<not> has_field c f) (key_sources k)) cs"
      using Cons.prems(2) by simp_all
    have "map_of p1 k = map_of p k"
      using pc [unfolded Inr] here by (rule process_condition_absent)
    moreover have "map_of p' k = map_of p1 k"
      using rest there by (rule Cons.IH)
    ultimately show ?thesis by simp
  qed
qed

section \<open>The specification, statement by statement\<close>

text \<open>
  C8. A record whose \<open>data_structure_type\<close> is none of 1, 2, 3, 4 (by Python's \<open>==\<close>, so a
  string, a null or any other number) changes neither the packet nor the state and raises
  nothing; the loop over the records and the whole document give what they give without
  that record.
\<close>

theorem unknown_type_ignored:
  assumes "map_of c ''data_structure_type'' = Some t"
    and "num_of t \<notin> {Some 1, Some 2, Some 3, Some 4}"
  shows "process_condition sf st p (JDict c) = (st, Inr p)
    \<and> process_conditions sf st p (cs @ JDict c # cs') = process_conditions sf st p (cs @ cs')
    \<and> (\<forall>data d ts. py_getitem data ''data'' = Inr d \<and> py_getitem d ''ts'' = Inr ts
          \<and> py_getitem d ''conditions'' = Inr (JList (cs @ JDict c # cs')) \<longrightarrow>
        normalize sf st data =
          process_conditions sf st [(''dateTime'', ts), (''usUnits'', JInt 1)] (cs @ cs'))"
proof -
  have one: "\<And>st p. process_condition sf st p (JDict c) = (st, Inr p)"
    using assms by (intro process_condition_unknown) auto
  have skip: "\<And>st p. process_conditions sf st p (JDict c # cs') = process_conditions sf st p cs'"
    by (simp add: one)
  have two: "\<And>p. process_conditions sf st p (cs @ JDict c # cs') = process_conditions sf st p (cs @ cs')"
    by (simp only: process_conditions_append skip)
  have three: "normalize sf st data =
          process_conditions sf st [(''dateTime'', ts), (''usUnits'', JInt 1)] (cs @ cs')"
    if "py_getitem data ''data'' = Inr d" "py_getitem d ''ts'' = Inr ts"
       "py_getitem d ''conditions'' = Inr (JList (cs @ JDict c # cs'))" for data d ts
  proof -
    have "normalize sf st data =
        process_conditions sf st [(''dateTime'', ts), (''usUnits'', JInt 1)] (cs @ JDict c # cs')"
      by (rule normalize_conditions [OF that]) simp
    also have "\<dots> = process_conditions sf st [(''dateTime'', ts), (''usUnits'', JInt 1)] (cs @ cs')"
      by (rule two)
    finally show ?thesis .
  qed
  from one two three show ?thesis by blast
qed

theorem unknown_type_ignored_witness:
  "process_condition (\<lambda>s. None) (WLL_init 10) [(''dateTime'', JInt 1000)]
       (JDict [(''data_structure_type'', JInt 5), (''temp'', JInt 70)])
     = (WLL_init 10, Inr [(''dateTime'', JInt 1000)])
   \<and> process_conditions (\<lambda>s. None) (WLL_init 10) [(''dateTime'', JInt 1000)]
       ([JDict [(''data_structure_type'', JInt 4), (''temp_in'', JInt 68)]]
        @ JDict [(''data_structure_type'', JInt 5), (''temp'', JInt 70)]
        # [JDict [(''data_structure_type'', JInt 3), (''bar_absolute'', JInt 30)]])
     = (WLL_init 10, Inr [(''dateTime'', JInt 1000), (''inTemp'', JInt 68), (''pressure'', JInt 30)])"
proof -
  have a: "map_of [(''data_structure_type'', JInt 5), (''temp'', JInt 70)] ''data_structure_type''
      = Some (JInt 5)" by simp
  have b: "num_of (JInt 5) \<notin> {Some 1, Some 2, Some 3, Some 4}" by simp
  show ?thesis
    using unknown_type_ignored [OF a b, of "\<lambda>s. None" "WLL_init 10" "[(''dateTime'', JInt 1000)]"
        "[JDict [(''data_structure_type'', JInt 4), (''temp_in'', JInt 68)]]"
        "[JDict [(''data_structure_type'', JInt 3), (''bar_absolute'', JInt 30)]]"]
    by (simp add: wll_eval)
qed

text \<open>
  C2 (the code departs from it). A type 2 record with \<open>moist_soil_2 = 7\<close> and
  \<open>moist_soil_3 = 9\<close>: the packet has no \<open>soilMoist2\<close>; both fields are written to
  \<open>soilMoist3\<close>, and the value of \<open>moist_soil_2\<close> is overwritten.
\<close>

theorem soil_moisture_2_stored_as_3:
  "normalize (\<lambda>s. None) (WLL_init 10)
     (JDict [(''data'', JDict [(''ts'', JInt 1000), (''conditions'',
        JList [JDict [(''data_structure_type'', JInt 2), (''moist_soil_2'', JInt 7),
                      (''moist_soil_3'', JInt 9)]])])])
   = (WLL_init 10,
      Inr [(''dateTime'', JInt 1000), (''usUnits'', JInt 1), (''soilMoist3'', JInt 9)])"
  by (simp add: wll_eval)

text \<open>
  C10. The stored state is \<open>(10, 500)\<close>. A document holds an ISS record with
  \<open>rain_storm = 15\<close>, \<open>rain_storm_start_at = 500\<close> and then a record without
  \<open>data_structure_type\<close>. The cycle logs a KeyError and yields nothing, yet it leaves
  \<open>(15, 500)\<close> stored; the next cycle, on the ISS record alone, yields \<open>rain = 0\<close>. Had
  the first cycle not taken place, that cycle would have yielded \<open>rain = 5 * 0.01\<close>.
\<close>

theorem state_advances_in_failed_cycle:
  "genLoopPackets (\<lambda>s. None)
     \<lparr>poll_interval = 10, last_rain_storm = JInt 10, last_rain_storm_start_at = JInt 500,
      rain_count_size = None\<rparr>
     [Json (JDict [(''data'', JDict [(''ts'', JInt 1000), (''conditions'',
        JList [JDict [(''data_structure_type'', JInt 1), (''rain_size'', JInt 1),
                      (''rain_storm'', JInt 15), (''rain_storm_start_at'', JInt 500)],
               JDict [(''temp_in'', JInt 70)]])])]),
      Json (JDict [(''data'', JDict [(''ts'', JInt 1010), (''conditions'',
        JList [JDict [(''data_structure_type'', JInt 1), (''rain_size'', JInt 1),
                      (''rain_storm'', JInt 15), (''rain_storm_start_at'', JInt 500)]])])])]
   = [Logerr ''Error parsing the WeatherLink Live json data.'', LogerrException KeyError,
      Sleep 10,
      Yield [(''dateTime'', JInt 1010), (''usUnits'', JInt 1), (''rain'', JFloat 0)],
      Sleep 10]
   \<and> fst (cycle (\<lambda>s. None)
     \<lparr>poll_interval = 10, last_rain_storm = JInt 10, last_rain_storm_start_at = JInt 500,
      rain_count_size = None\<rparr>
     (Json (JDict [(''data'', JDict [(''ts'', JInt 1000), (''conditions'',
        JList [JDict [(''data_structure_type'', JInt 1), (''rain_size'', JInt 1),
                      (''rain_storm'', JInt 15), (''rain_storm_start_at'', JInt 500)],
               JDict [(''temp_in'', JInt 70)]])])])))
     = \<lparr>poll_interval = 10, last_rain_storm = JInt 15, last_rain_storm_start_at = JInt 500,
        rain_count_size = Some (1 / 100)\<rparr>
   \<and> genLoopPackets (\<lambda>s. None)
     \<lparr>poll_interval = 10, last_rain_storm = JInt 10, last_rain_storm_start_at = JInt 500,
      rain_count_size = None\<rparr>
     [Json (JDict [(''data'', JDict [(''ts'', JInt 1010), (''conditions'',
        JList [JDict [(''data_structure_type'', JInt 1), (''rain_size'', JInt 1),
                      (''rain_storm'', JInt 15), (''rain_storm_start_at'', JInt 500)]])])])]
   = [Yield [(''dateTime'', JInt 1010), (''usUnits'', JInt 1), (''rain'', JFloat (5 * (1 / 100)))],
      Sleep 10]"
  by (simp add: wll_eval)










text \<open>
  C9. With a poll interval that is not negative: a pass in which \<^verbatim>\<open>requests.get\<close> raises
  logs two lines, sleeps 2 seconds and yields nothing; a pass whose response is not JSON, or
  whose document raises (a missing \<open>data\<close>, \<open>data.ts\<close> or \<open>data.conditions\<close> raises a
  KeyError), logs two lines, sleeps the poll interval and yields nothing; in each case the
  loop goes on with the next response, and no exception ever leaves the generator.
\<close>

theorem failed_cycle_backoff:
  assumes "0 \<le> poll_interval st"
  shows "genLoopPackets sf st (GetRaises # rs) =
        [Logerr ''Error connecting to the WeatherLink Live device.'',
         LogerrException ConnectionError, Sleep 2] @ genLoopPackets sf st rs
    \<and> genLoopPackets sf st (NotJson # rs) =
        [Logerr ''Error parsing the WeatherLink Live json data.'',
         LogerrException ValueError, Sleep (poll_interval st)] @ genLoopPackets sf st rs
    \<and> (\<forall>data st' e. normalize sf st data = (st', Inl e) \<longrightarrow>
          genLoopPackets sf st (Json data # rs) =
            [Logerr ''Error parsing the WeatherLink Live json data.'',
             LogerrException e, Sleep (poll_interval st)] @ genLoopPackets sf st' rs)
    \<and> (\<forall>d. map_of d ''data'' = None \<longrightarrow> normalize sf st (JDict d) = (st, Inl KeyError))
    \<and> (\<forall>data d. py_getitem data ''data'' = Inr (JDict d)
          \<and> (map_of d ''ts'' = None \<or> map_of d ''conditions'' = None) \<longrightarrow>
          normalize sf st data = (st, Inl KeyError))
    \<and> (\<forall>e. Raise e \<notin> set (genLoopPackets sf st rs))"
proof -
  have one: "genLoopPackets sf st (GetRaises # rs) =
        [Logerr ''Error connecting to the WeatherLink Live device.'',
         LogerrException ConnectionError, Sleep 2] @ genLoopPackets sf st rs"
    by (simp add: cycle_def)
  have two: "genLoopPackets sf st (NotJson # rs) =
        [Logerr ''Error parsing the WeatherLink Live json data.'',
         LogerrException ValueError, Sleep (poll_interval st)] @ genLoopPackets sf st rs"
    using assms by (simp add: cycle_def parse_handler_nonneg)
  have three: "genLoopPackets sf st (Json data # rs) =
            [Logerr ''Error parsing the WeatherLink Live json data.'',
             LogerrException e, Sleep (poll_interval st)] @ genLoopPackets sf st' rs"
    if "normalize sf st data = (st', Inl e)" for data st' e
  proof -
    have eq: "poll_interval st' = poll_interval st"
      using normalize_poll_interval [of sf st data] that by simp
    then have "0 \<le> poll_interval st'" using assms by simp
    then show ?thesis
      using that eq by (simp add: cycle_def parse_handler_nonneg)
  qed
  have four: "normalize sf st (JDict d) = (st, Inl KeyError)"
    if "map_of d ''data'' = None" for d
    using that by (simp add: normalize_def)
  have five: "normalize sf st data = (st, Inl KeyError)"
    if "py_getitem data ''data'' = Inr (JDict d)"
      and "map_of d ''ts'' = None \<or> map_of d ''conditions'' = None" for data d
    using that by (auto simp: normalize_def split: option.splits)
  have six: "Raise e \<notin> set (genLoopPackets sf st rs)" for e
    using assms by (rule genLoopPackets_never_raises)
  from one two three four five six show ?thesis by blast
qed

theorem failed_cycle_backoff_witness:
  "genLoopPackets (\<lambda>s. None) (WLL_init 10)
     [GetRaises, NotJson, Json (JDict [(''data'', JDict [(''ts'', JInt 1000)])]),
      Json (JDict [(''data'', JDict [(''ts'', JInt 1010), (''conditions'',
        JList [JDict [(''data_structure_type'', JInt 4), (''temp_in'', JInt 68)]])])])]
   = [Logerr ''Error connecting to the WeatherLink Live device.'',
      LogerrException ConnectionError, Sleep 2,
      Logerr ''Error parsing the WeatherLink Live json data.'',
      LogerrException ValueError, Sleep 10,
      Logerr ''Error parsing the WeatherLink Live json data.'',
      LogerrException KeyError, Sleep 10,
      Yield [(''dateTime'', JInt 1010), (''usUnits'', JInt 1), (''inTemp'', JInt 68)],
      Sleep 10]"
proof -
  let ?bad = "JDict [(''data'', JDict [(''ts'', JInt 1000)])]"
  let ?good = "Json (JDict [(''data'', JDict [(''ts'', JInt 1010), (''conditions'',
        JList [JDict [(''data_structure_type'', JInt 4), (''temp_in'', JInt 68)]])])])"
  have nonneg: "0 \<le> poll_interval (WLL_init 10)" by (simp add: WLL_init_def)
  have pi: "poll_interval (WLL_init 10) = 10" by (simp add: WLL_init_def)
  have bad: "normalize (\<lambda>s. None) (WLL_init 10) ?bad = (WLL_init 10, Inl KeyError)"
    using failed_cycle_backoff [OF nonneg, of "\<lambda>s. None" "[]"] by simp
  have last: "genLoopPackets (\<lambda>s. None) (WLL_init 10) [?good]
      = [Yield [(''dateTime'', JInt 1010), (''usUnits'', JInt 1), (''inTemp'', JInt 68)],
         Sleep 10]"
    by (simp add: wll_eval)
  have "genLoopPackets (\<lambda>s. None) (WLL_init 10) [Json ?bad, ?good]
      = [Logerr ''Error parsing the WeatherLink Live json data.'',
         LogerrException KeyError, Sleep 10] @ genLoopPackets (\<lambda>s. None) (WLL_init 10) [?good]"
    using failed_cycle_backoff [OF nonneg, of "\<lambda>s. None" "[?good]"] bad pi by metis
  moreover have "genLoopPackets (\<lambda>s. None) (WLL_init 10) [NotJson, Json ?bad, ?good]
      = [Logerr ''Error parsing the WeatherLink Live json data.'',
         LogerrException ValueError, Sleep 10]
        @ genLoopPackets (\<lambda>s. None) (WLL_init 10) [Json ?bad, ?good]"
    using failed_cycle_backoff [OF nonneg, of "\<lambda>s. None" "[Json ?bad, ?good]"] pi by metis
  moreover have "genLoopPackets (\<lambda>s. None) (WLL_init 10) [GetRaises, NotJson, Json ?bad, ?good]
      = [Logerr ''Error connecting to the WeatherLink Live device.'',
         LogerrException ConnectionError, Sleep 2]
        @ genLoopPackets (\<lambda>s. None) (WLL_init 10) [NotJson, Json ?bad, ?good]"
    using failed_cycle_backoff [OF nonneg, of "\<lambda>s. None" "[NotJson, Json ?bad, ?good]"] by metis
  ultimately show ?thesis
    using last by simp
qed

text \<open>
  C6 (as amended). Both stored values are \<^verbatim>\<open>None\<close> when the driver is constructed. A cycle
  leaves the stored pair as it was or stores the \<open>(rain_storm, rain_storm_start_at)\<close> of one
  of the records of the document. So the invariant (both \<^verbatim>\<open>None\<close> or neither) is kept by a
  cycle in whose records these two values are both null or both not null; if neither is
  ever null, a stored pair that is present stays present, and both values are present after
  a cycle that yields a packet and has processed a record that reaches lines 219 and 220.
\<close>

theorem precipitation_state_invariant:
  "last_rain_storm (WLL_init q) = JNull \<and> last_rain_storm_start_at (WLL_init q) = JNull
   \<and> precip_inv (WLL_init q)
   \<and> (precip_inv st \<and> list_all pair_consistent (records_of r) \<longrightarrow>
        precip_inv (fst (cycle sf st r)))
   \<and> (last_rain_storm st \<noteq> JNull \<and> last_rain_storm_start_at st \<noteq> JNull
        \<and> list_all pair_nonnull (records_of r) \<longrightarrow>
        last_rain_storm (fst (cycle sf st r)) \<noteq> JNull
        \<and> last_rain_storm_start_at (fst (cycle sf st r)) \<noteq> JNull)
   \<and> (\<forall>data st' p. normalize sf st data = (st', Inr p)
        \<and> list_ex precip_capable (conditions_of data)
        \<and> list_all pair_nonnull (conditions_of data) \<longrightarrow>
        last_rain_storm st' \<noteq> JNull \<and> last_rain_storm_start_at st' \<noteq> JNull)"
proof -
  have init: "last_rain_storm (WLL_init q) = JNull \<and> last_rain_storm_start_at (WLL_init q) = JNull
      \<and> precip_inv (WLL_init q)"
    by (simp add: WLL_init_def precip_inv_def)
  have inv: "precip_inv (fst (cycle sf st r))"
    if "precip_inv st" "list_all pair_consistent (records_of r)"
    using cycle_stored [of sf st r] that
    by (auto dest: pair_consistent_stored stored_eq_precip_inv)
  have present: "last_rain_storm (fst (cycle sf st r)) \<noteq> JNull
        \<and> last_rain_storm_start_at (fst (cycle sf st r)) \<noteq> JNull"
    if "last_rain_storm st \<noteq> JNull" "last_rain_storm_start_at st \<noteq> JNull"
      "list_all pair_nonnull (records_of r)"
  proof -
    consider "stored (fst (cycle sf st r)) = stored st"
      | "list_ex (\<lambda>c. storm_pair c = Some (stored (fst (cycle sf st r)))) (records_of r)"
      using cycle_stored [of sf st r] by blast
    then show ?thesis
    proof cases
      case 1
      with that(1,2) show ?thesis by (simp add: stored_def)
    next
      case 2
      with that(3) show ?thesis by (rule pair_nonnull_stored)
    qed
  qed
  have after: "last_rain_storm st' \<noteq> JNull \<and> last_rain_storm_start_at st' \<noteq> JNull"
    if n: "normalize sf st data = (st', Inr p)"
      and cap: "list_ex precip_capable (conditions_of data)"
      and nn: "list_all pair_nonnull (conditions_of data)" for data st' p
  proof -
    obtain ts where "normalize sf st data =
         process_conditions sf st [(''dateTime'', ts), (''usUnits'', JInt 1)] (conditions_of data)"
      using normalize_cases [of sf st data] n by auto
    with n have "process_conditions sf st [(''dateTime'', ts), (''usUnits'', JInt 1)]
        (conditions_of data) = (st', Inr p)" by simp
    then have "list_ex (\<lambda>c. storm_pair c = Some (stored st')) (conditions_of data)"
      using cap by (rule process_conditions_capable_stored)
    with nn show ?thesis by (rule pair_nonnull_stored)
  qed
  from init inv present after show ?thesis by blast
qed


theorem precipitation_state_invariant_witness:
  "precip_inv (WLL_init 10)
   \<and> precip_inv (fst (cycle (\<lambda>s. None) (WLL_init 10)
       (Json (JDict [(''data'', JDict [(''ts'', JInt 1000), (''conditions'',
          JList [JDict [(''data_structure_type'', JInt 1), (''rain_size'', JInt 1),
                        (''rain_storm'', JInt 10), (''rain_storm_start_at'', JInt 500)]])])]))))
   \<and> last_rain_storm \<lparr>poll_interval = 10, last_rain_storm = JInt 10,
        last_rain_storm_start_at = JInt 500, rain_count_size = Some (1 / 100)\<rparr> \<noteq> JNull
   \<and> last_rain_storm_start_at \<lparr>poll_interval = 10, last_rain_storm = JInt 10,
        last_rain_storm_start_at = JInt 500, rain_count_size = Some (1 / 100)\<rparr> \<noteq> JNull"
proof -
  let ?data = "JDict [(''data'', JDict [(''ts'', JInt 1000), (''conditions'',
          JList [JDict [(''data_structure_type'', JInt 1), (''rain_size'', JInt 1),
                        (''rain_storm'', JInt 10), (''rain_storm_start_at'', JInt 500)]])])]"
  let ?st' = "\<lparr>poll_interval = 10, last_rain_storm = JInt 10,
        last_rain_storm_start_at = JInt 500, rain_count_size = Some (1 / 100)\<rparr>"
  note T = precipitation_state_invariant [of 10 "WLL_init 10" "Json ?data" "\<lambda>s. None"]
  have init: "precip_inv (WLL_init 10)" using T by blast
  have cons: "list_all pair_consistent (records_of (Json ?data))"
    by (simp add: records_of_def conditions_of_def pair_consistent_def)
  have inv: "precip_inv (fst (cycle (\<lambda>s. None) (WLL_init 10) (Json ?data)))"
    using T init cons by blast
  have n: "normalize (\<lambda>s. None) (WLL_init 10) ?data
      = (?st', Inr [(''dateTime'', JInt 1000), (''usUnits'', JInt 1), (''rain'', JFloat 0)])"
    by (simp add: wll_eval)
  have cap: "list_ex precip_capable (conditions_of ?data)"
    by (simp add: conditions_of_def rain_size_in_range_def py_le_def)
  have nn: "list_all pair_nonnull (conditions_of ?data)"
    by (simp add: conditions_of_def pair_nonnull_def)
  have "last_rain_storm ?st' \<noteq> JNull \<and> last_rain_storm_start_at ?st' \<noteq> JNull"
    using T n cap nn by blast
  with init inv show ?thesis by blast
qed

text \<open>
  C6 as it was stated fails: a JSON null is Python's \<^verbatim>\<open>None\<close>. From the initial state, the
  ISS record with \<open>rain_storm = 0\<close> and \<open>rain_storm_start_at = null\<close> leaves the count
  stored and the start \<^verbatim>\<open>None\<close>.
\<close>

theorem precipitation_state_invariant_counterexample:
  "precip_inv (WLL_init 10)
   \<and> fst (cycle (\<lambda>s. None) (WLL_init 10)
       (Json (JDict [(''data'', JDict [(''ts'', JInt 1000), (''conditions'',
          JList [JDict [(''data_structure_type'', JInt 1), (''rain_size'', JInt 1),
                        (''rain_storm'', JInt 0), (''rain_storm_start_at'', JNull)]])])])))
     = \<lparr>poll_interval = 10, last_rain_storm = JInt 0, last_rain_storm_start_at = JNull,
        rain_count_size = Some (1 / 100)\<rparr>
   \<and> \<not> precip_inv (fst (cycle (\<lambda>s. None) (WLL_init 10)
       (Json (JDict [(''data'', JDict [(''ts'', JInt 1000), (''conditions'',
          JList [JDict [(''data_structure_type'', JInt 1), (''rain_size'', JInt 1),
                        (''rain_storm'', JInt 0), (''rain_storm_start_at'', JNull)]])])]))))"
  by (simp add: wll_eval precip_inv_def)

text \<open>
  C3 (as amended). A copied field that is present with the value null is not treated as
  absent: if no other field of the record is written under the same key and the record is
  processed without an exception, the packet holds that key with the value null.
\<close>

theorem null_field_passes_through:
  assumes "map_of c ''data_structure_type'' = Some t"
    and "(f, k) \<in> set (passthrough_fields t)"
    and "map_of c f = Some JNull"
    and "\<forall>f'. (f', k) \<in> set (passthrough_fields t) \<and> f' \<noteq> f \<longrightarrow> map_of c f' = None"
    and "process_condition sf st p (JDict c) = (st', Inr p')"
  shows "map_of p' k = Some JNull"
  using assms(1,2,3) _ assms(5) by (rule passthrough_field) (use assms(4) in blast)

theorem null_field_passes_through_witness:
  "process_condition (\<lambda>s. None) (WLL_init 10) []
     (JDict [(''data_structure_type'', JInt 1), (''temp'', JNull), (''hum'', JInt 40)])
   = (WLL_init 10, Inr [(''outTemp'', JNull), (''outHumidity'', JInt 40)])
   \<and> map_of [(''outTemp'', JNull), (''outHumidity'', JInt 40)] ''outTemp'' = Some JNull"
proof -
  let ?c = "[(''data_structure_type'', JInt 1), (''temp'', JNull), (''hum'', JInt 40)]"
  have run: "process_condition (\<lambda>s. None) (WLL_init 10) [] (JDict ?c)
      = (WLL_init 10, Inr [(''outTemp'', JNull), (''outHumidity'', JInt 40)])"
    by (simp add: wll_eval)
  have a: "map_of ?c ''data_structure_type'' = Some (JInt 1)" by simp
  have b: "(''temp'', ''outTemp'') \<in> set (passthrough_fields (JInt 1))"
    by (simp add: passthrough_fields_def iss_fields_def)
  have c: "map_of ?c ''temp'' = Some JNull" by simp
  have d: "\<forall>f'. (f', ''outTemp'') \<in> set (passthrough_fields (JInt 1)) \<and> f' \<noteq> ''temp''
      \<longrightarrow> map_of ?c f' = None"
    by (simp add: passthrough_fields_def iss_fields_def iss_fields_tail_def)
  have "map_of [(''outTemp'', JNull), (''outHumidity'', JInt 40)] ''outTemp'' = Some JNull"
    using a b c d run by (rule null_field_passes_through)
  with run show ?thesis by simp
qed

text \<open>
  C3 as it was stated fails: an ISS record with \<open>temp = null\<close> puts \<open>outTemp = null\<close> into
  the packet; the same record without \<open>temp\<close> puts no \<open>outTemp\<close> there.
\<close>

theorem null_as_absent_counterexample:
  "normalize (\<lambda>s. None) (WLL_init 10)
     (JDict [(''data'', JDict [(''ts'', JInt 1000), (''conditions'',
        JList [JDict [(''data_structure_type'', JInt 1), (''temp'', JNull)]])])])
   = (WLL_init 10,
      Inr [(''dateTime'', JInt 1000), (''usUnits'', JInt 1), (''outTemp'', JNull)])
   \<and> normalize (\<lambda>s. None) (WLL_init 10)
     (JDict [(''data'', JDict [(''ts'', JInt 1000), (''conditions'',
        JList [JDict [(''data_structure_type'', JInt 1)]])])])
   = (WLL_init 10,
      Inr [(''dateTime'', JInt 1000), (''usUnits'', JInt 1)])"
  by (simp add: wll_eval)

text \<open>
  C7 (the code departs from it). A type 2 record with \<open>moist_soil_2 = 0\<close> and no
  \<open>moist_soil_3\<close>: the packet holds \<open>soilMoist3 = 0\<close>, whose own input field is absent
  from every record, and no \<open>soilMoist2\<close>.
\<close>

theorem soil_moisture_2_alone:
  "normalize (\<lambda>s. None) (WLL_init 10)
     (JDict [(''data'', JDict [(''ts'', JInt 1000), (''conditions'',
        JList [JDict [(''data_structure_type'', JInt 2), (''moist_soil_2'', JInt 0)]])])])
   = (WLL_init 10,
      Inr [(''dateTime'', JInt 1000), (''usUnits'', JInt 1), (''soilMoist3'', JInt 0)])"
  by (simp add: wll_eval)

section \<open>Further properties of the driver\<close>

text \<open>
  If none of the input fields that the code writes under a key, or computes it from, is
  present in any record of the document, a packet that is yielded does not hold the key.
\<close>

theorem absent_input_absent_output:
  assumes "normalize sf st data = (st', Inr p)"
    and "k \<noteq> ''dateTime''" and "k \<noteq> ''usUnits''"
    and "list_all (\<lambda>c. list_all (\<lambda>f. \<not> has_field c f) (key_sources k)) (conditions_of data)"
  shows "map_of p k = None"
proof -
  obtain ts where "normalize sf st data =
       process_conditions sf st [(''dateTime'', ts), (''usUnits'', JInt 1)] (conditions_of data)"
    using normalize_cases [of sf st data] assms(1) by auto
  with assms(1) have "process_conditions sf st [(''dateTime'', ts), (''usUnits'', JInt 1)]
      (conditions_of data) = (st', Inr p)" by simp
  then have "map_of p k = map_of [(''dateTime'', ts), (''usUnits'', JInt 1)] k"
    using assms(4) by (rule process_conditions_absent)
  with assms(2,3) show ?thesis by simp
qed

theorem absent_input_absent_output_witness:
  "normalize (\<lambda>s. None) (WLL_init 10)
     (JDict [(''data'', JDict [(''ts'', JInt 1000), (''conditions'',
        JList [JDict [(''data_structure_type'', JInt 1), (''hum'', JInt 40)],
               JDict [(''data_structure_type'', JInt 2), (''temp'', JInt 5)]])])])
   = (WLL_init 10,
      Inr [(''dateTime'', JInt 1000), (''usUnits'', JInt 1), (''outHumidity'', JInt 40)])
   \<and> map_of [(''dateTime'', JInt 1000), (''usUnits'', JInt 1), (''outHumidity'', JInt 40)]
        ''rain'' = None"
proof -
  let ?data = "JDict [(''data'', JDict [(''ts'', JInt 1000), (''conditions'',
        JList [JDict [(''data_structure_type'', JInt 1), (''hum'', JInt 40)],
               JDict [(''data_structure_type'', JInt 2), (''temp'', JInt 5)]])])]"
  have run: "normalize (\<lambda>s. None) (WLL_init 10) ?data
      = (WLL_init 10,
         Inr [(''dateTime'', JInt 1000), (''usUnits'', JInt 1), (''outHumidity'', JInt 40)])"
    by (simp add: wll_eval)
  have a: "''rain'' \<noteq> ''dateTime''" and b: "''rain'' \<noteq> ''usUnits''" by simp_all
  have c: "list_all (\<lambda>c. list_all (\<lambda>f. \<not> has_field c f) (key_sources ''rain''))
      (conditions_of ?data)"
    by (simp add: conditions_of_def key_sources_def field_table_def wll_eval)
  have "map_of [(''dateTime'', JInt 1000), (''usUnits'', JInt 1), (''outHumidity'', JInt 40)]
      ''rain'' = None"
    using run a b c by (rule absent_input_absent_output)
  with run show ?thesis by simp
qed

text \<open>
  A copied field that is present is written under its key with its value unchanged (0
  included), if no other field of the record is written under the same key and the record is
  processed without an exception.
\<close>

theorem present_field_copied:
  assumes "map_of c ''data_structure_type'' = Some t"
    and "(f, k) \<in> set (passthrough_fields t)"
    and "map_of c f = Some v"
    and "\<forall>f'. (f', k) \<in> set (passthrough_fields t) \<and> f' \<noteq> f \<longrightarrow> map_of c f' = None"
    and "process_condition sf st p (JDict c) = (st', Inr p')"
  shows "map_of p' k = Some v"
  using assms(1,2,3) _ assms(5) by (rule passthrough_field) (use assms(4) in blast)

theorem present_field_copied_witness:
  "process_condition (\<lambda>s. None) (WLL_init 10) [(''pressure'', JInt 29)]
     (JDict [(''data_structure_type'', JInt 3), (''bar_absolute'', JInt 0)])
   = (WLL_init 10, Inr [(''pressure'', JInt 0)])
   \<and> map_of [(''pressure'', JInt 0)] ''pressure'' = Some (JInt 0)"
proof -
  let ?c = "[(''data_structure_type'', JInt 3), (''bar_absolute'', JInt 0)]"
  have run: "process_condition (\<lambda>s. None) (WLL_init 10) [(''pressure'', JInt 29)] (JDict ?c)
      = (WLL_init 10, Inr [(''pressure'', JInt 0)])"
    by (simp add: wll_eval)
  have a: "map_of ?c ''data_structure_type'' = Some (JInt 3)" by simp
  have b: "(''bar_absolute'', ''pressure'') \<in> set (passthrough_fields (JInt 3))"
    by (simp add: passthrough_fields_def bar_fields_def)
  have c: "map_of ?c ''bar_absolute'' = Some (JInt 0)" by simp
  have d: "\<forall>f'. (f', ''pressure'') \<in> set (passthrough_fields (JInt 3)) \<and> f' \<noteq> ''bar_absolute''
      \<longrightarrow> map_of ?c f' = None"
    by (simp add: passthrough_fields_def bar_fields_def)
  have "map_of [(''pressure'', JInt 0)] ''pressure'' = Some (JInt 0)"
    using a b c d run by (rule present_field_copied)
  with run show ?thesis by simp
qed


text \<open>
  A \<open>rain_size\<close> between 1 and 4 that equals none of 1, 2, 3, 4 passes the test of line 185
  and assigns no multiplier: the first such record fails with an UnboundLocalError, and a
  later one silently uses the multiplier that an earlier record left in the local variable.
\<close>

theorem rain_size_between_collector_types:
  "process_condition (\<lambda>s. None) (WLL_init 10) []
     (JDict [(''data_structure_type'', JInt 1), (''rain_size'', JFloat (5 / 2)),
             (''rain_rate_last'', JInt 3)])
   = (WLL_init 10, Inl UnboundLocalError)
   \<and> process_condition (\<lambda>s. None) (WLL_init 10\<lparr>rain_count_size := Some (1 / 100)\<rparr>) []
     (JDict [(''data_structure_type'', JInt 1), (''rain_size'', JFloat (5 / 2)),
             (''rain_rate_last'', JInt 3)])
   = (WLL_init 10\<lparr>rain_count_size := Some (1 / 100)\<rparr>,
      Inr [(''rainRate'', JFloat (3 * (1 / 100)))])"
  by (simp add: wll_eval)

end
